theory Spec2Isabelle
  imports Main
begin

text \<open>
  The reactive store, event queue, subscriptions and template binding of the web
  component engine. The sources hold three generations of it. The definitions
  follow the generation of \<open>src/unnamed/part_000\<close> (placeholders \<open>${key}\<close>,
  \<open>#fillState\<close>, a \<open>set\<close> trap that exempts functions); a name ending in \<open>_wc\<close>, and
  the attribute binding, follow the \<open>createObserver\<close> generation of
  \<open>src/web-component.js\<close> (placeholders \<open>{key}\<close>). \<open>#processEvents\<close>, \<open>#emitEvent\<close>,
  \<open>subscribe\<close>, \<open>deleteProperty\<close> and the array functions are the same in both.
\<close>

section \<open>State values\<close>

text \<open>
  The state tree holds JavaScript values. The model covers plain data: primitives,
  functions (carried by their source text), arrays and objects. An array has its
  elements and its named (non-index) properties; a hole reads as \<open>undefined\<close> and is
  stored as \<open>JUndefined\<close>. Numbers are the integers. Property lookup consults own
  properties only (no prototype chain, no getters or setters).
\<close>

datatype val =
    JUndefined
  | JNull
  | JBool bool
  | JNum int
  | JStr string
  | JFun string
  | JArr "val list" "(string \<times> val) list"
  | JObj "(string \<times> val) list"

datatype error = TypeError | RangeError

fun typeof :: "val \<Rightarrow> string" where
  "typeof JUndefined = ''undefined''"
| "typeof JNull = ''object''"
| "typeof (JBool b) = ''boolean''"
| "typeof (JNum n) = ''number''"
| "typeof (JStr s) = ''string''"
| "typeof (JFun src) = ''function''"
| "typeof (JArr xs ps) = ''object''"
| "typeof (JObj kvs) = ''object''"


subsection \<open>Numbers as decimal strings, array index keys\<close>

definition digit_char :: "nat \<Rightarrow> char" where
  "digit_char d = char_of (48 + d)"

function show_nat :: "nat \<Rightarrow> string" where
  "show_nat n = (if n < 10 then [digit_char n] else show_nat (n div 10) @ [digit_char (n mod 10)])"
  by pat_completeness auto
termination
  by (relation "measure id") auto

declare show_nat.simps [simp del]

definition show_int :: "int \<Rightarrow> string" where
  "show_int i = (if i < 0 then CHR ''-'' # show_nat (nat (- i)) else show_nat (nat i))"

definition is_digit :: "char \<Rightarrow> bool" where
  "is_digit c = ((48::nat) \<le> of_char c \<and> (of_char c :: nat) \<le> 57)"

definition digits_value :: "string \<Rightarrow> nat" where
  "digits_value s = foldl (\<lambda>acc c. 10 * acc + ((of_char c :: nat) - 48)) 0 s"

text \<open>A property key is an array index when it is the canonical decimal form of a number.\<close>

definition array_index :: "string \<Rightarrow> nat option" where
  "array_index s =
     (if s \<noteq> [] \<and> list_all is_digit s \<and> (s = ''0'' \<or> hd s \<noteq> CHR ''0'')
      then Some (digits_value s) else None)"

subsection \<open>String conversion\<close>

fun intercalate :: "string \<Rightarrow> string list \<Rightarrow> string" where
  "intercalate sep [] = []"
| "intercalate sep [s] = s"
| "intercalate sep (s # t # ss) = s @ sep @ intercalate sep (t # ss)"

text \<open>
  \<open>String(v)\<close>. An array converts through \<open>join\<close>, where \<open>undefined\<close> and \<open>null\<close>
  elements give the empty string.
\<close>

fun js_to_string :: "val \<Rightarrow> string" where
  "js_to_string JUndefined = ''undefined''"
| "js_to_string JNull = ''null''"
| "js_to_string (JBool b) = (if b then ''true'' else ''false'')"
| "js_to_string (JNum n) = show_int n"
| "js_to_string (JStr s) = s"
| "js_to_string (JFun src) = src"
| "js_to_string (JArr xs ps) =
     intercalate '','' (map (\<lambda>x. if x = JUndefined \<or> x = JNull then [] else js_to_string x) xs)"
| "js_to_string (JObj kvs) = ''[object Object]''"

text \<open>\<open>Array.prototype.join()\<close> with the default separator; \<open>toString()\<close> of an array calls it.\<close>

definition join :: "val list \<Rightarrow> string" where
  "join xs = intercalate '','' (map (\<lambda>x. if x = JUndefined \<or> x = JNull then [] else js_to_string x) xs)"

definition toString :: "val list \<Rightarrow> string" where
  "toString xs = join xs"

subsection \<open>Property access\<close>

fun own_get :: "val \<Rightarrow> string \<Rightarrow> val" where
  "own_get (JObj kvs) k = (case map_of kvs k of None \<Rightarrow> JUndefined | Some v \<Rightarrow> v)"
| "own_get (JArr xs ps) k =
     (case array_index k of
        Some i \<Rightarrow> (if i < length xs then xs ! i else JUndefined)
      | None \<Rightarrow> (if k = ''length'' then JNum (int (length xs))
                 else (case map_of ps k of None \<Rightarrow> JUndefined | Some v \<Rightarrow> v)))"
| "own_get (JStr s) k =
     (case array_index k of
        Some i \<Rightarrow> (if i < length s then JStr [s ! i] else JUndefined)
      | None \<Rightarrow> (if k = ''length'' then JNum (int (length s)) else JUndefined))"
| "own_get v k = JUndefined"


text \<open>\<open>Reflect.get(target, property)\<close> on the object a proxy wraps.\<close>

definition Reflect_get :: "val \<Rightarrow> string \<Rightarrow> val" where
  "Reflect_get target property = own_get target property"

fun alist_set :: "string \<Rightarrow> 'v \<Rightarrow> (string \<times> 'v) list \<Rightarrow> (string \<times> 'v) list" where
  "alist_set k v [] = [(k, v)]"
| "alist_set k v (p # ps) = (if fst p = k then (k, v) # ps else p # alist_set k v ps)"

definition alist_delete :: "string \<Rightarrow> (string \<times> 'v) list \<Rightarrow> (string \<times> 'v) list" where
  "alist_delete k ps = filter (\<lambda>p. fst p \<noteq> k) ps"

text \<open>
  \<open>Reflect.set(target, property, value)\<close>: the updated target and the boolean result.
  Writing an index past the end extends the array; writing \<open>length\<close> takes a number
  and throws a RangeError for an invalid length.
\<close>

fun Reflect_set :: "val \<Rightarrow> string \<Rightarrow> val \<Rightarrow> error + (val \<times> bool)" where
  "Reflect_set (JObj kvs) k v = Inr (JObj (alist_set k v kvs), True)"
| "Reflect_set (JArr xs ps) k v =
     (case array_index k of
        Some i \<Rightarrow>
          (if i < length xs then Inr (JArr (xs[i := v]) ps, True)
           else Inr (JArr (xs @ replicate (i - length xs) JUndefined @ [v]) ps, True))
      | None \<Rightarrow>
          (if k = ''length'' then
             (case v of
                JNum n \<Rightarrow>
                  (if 0 \<le> n \<and> n < 2 ^ 32
                   then Inr (JArr (take (nat n) xs @ replicate (nat n - length xs) JUndefined) ps, True)
                   else Inl RangeError)
              | _ \<Rightarrow> Inl RangeError)
           else Inr (JArr xs (alist_set k v ps), True)))"
| "Reflect_set target k v = Inl TypeError"

text \<open>\<open>Reflect.deleteProperty(target, property)\<close>; \<open>length\<close> of an array cannot be deleted.\<close>

fun Reflect_deleteProperty :: "val \<Rightarrow> string \<Rightarrow> error + (val \<times> bool)" where
  "Reflect_deleteProperty (JObj kvs) k = Inr (JObj (alist_delete k kvs), True)"
| "Reflect_deleteProperty (JArr xs ps) k =
     (case array_index k of
        Some i \<Rightarrow> (if i < length xs then Inr (JArr (xs[i := JUndefined]) ps, True) else Inr (JArr xs ps, True))
      | None \<Rightarrow>
          (if k = ''length'' then Inr (JArr xs ps, False)
           else Inr (JArr xs (alist_delete k ps), True)))"
| "Reflect_deleteProperty target k = Inl TypeError"

section \<open>Change events and the manager's queue\<close>

datatype event_type = ASSIGN | CHANGE | REMOVE | ADD | MOVE

record ev =
  ev_event :: event_type
  ev_path :: "val list"
  ev_oldValue :: val
  ev_newValue :: val

text \<open>
  The part of a \<open>StateManager\<close> the scheduler works on: the queue \<open>#events\<close>, the
  \<open>consumers\<close> map in insertion order, the number of animation-frame callbacks
  requested and not yet run, and a log of the consumer calls made so far.
\<close>

record 'c manager =
  events :: "ev list"
  consumers :: "(string \<times> 'c list) list"
  frames :: nat
  delivered :: "('c \<times> ev) list"

definition emitEvent :: "event_type \<Rightarrow> val list \<Rightarrow> val \<Rightarrow> val \<Rightarrow> 'c manager \<Rightarrow> 'c manager" where
  "emitEvent event p oldValue newValue m =
     m\<lparr>events := events m @ [\<lparr>ev_event = event, ev_path = p, ev_oldValue = oldValue, ev_newValue = newValue\<rparr>],
       frames := Suc (frames m)\<rparr>"

section \<open>createObserver: the handlers\<close>

text \<open>
  Each handler is the function of that name in the \<open>handlers\<close> object that
  \<open>createObserver(target, emitEvent, path)\<close> builds. It takes the \<open>emitEvent\<close>
  callback, the observer's \<open>path\<close> and \<open>target\<close>, its own arguments and the state
  the callback works on; it gives back its return value, the target after the
  mutation and the state after the calls of \<open>emitEvent\<close>, or the error thrown.
  A call of \<open>emitEvent\<close> with three arguments leaves \<open>newValue\<close> undefined.
\<close>

type_synonym 's emitter = "event_type \<Rightarrow> val list \<Rightarrow> val \<Rightarrow> val \<Rightarrow> 's \<Rightarrow> 's"

text \<open>The \<open>set\<close> trap of the observer with the function exemption.\<close>

definition observer_set ::
  "'s emitter \<Rightarrow> val list \<Rightarrow> val \<Rightarrow> string \<Rightarrow> val \<Rightarrow> 's \<Rightarrow> error + (bool \<times> val \<times> 's)" where
  "observer_set emit p target property v s =
     (let oldValue = Reflect_get target property in
      case Reflect_set target property v of
        Inl e \<Rightarrow> Inl e
      | Inr (target', result) \<Rightarrow>
          (let eventPath = p @ [JStr property] in
           if typeof v = ''function'' then Inr (result, target', s)
           else if oldValue \<noteq> JUndefined
             then Inr (result, target', emit CHANGE eventPath oldValue v s)
             else Inr (result, target', emit ASSIGN eventPath JUndefined v s)))"

text \<open>The \<open>set\<close> trap of the observer in \<open>web-component.js\<close>: no test of the value's type.\<close>

definition observer_set_wc ::
  "'s emitter \<Rightarrow> val list \<Rightarrow> val \<Rightarrow> string \<Rightarrow> val \<Rightarrow> 's \<Rightarrow> error + (bool \<times> val \<times> 's)" where
  "observer_set_wc emit p target property v s =
     (let oldValue = Reflect_get target property in
      case Reflect_set target property v of
        Inl e \<Rightarrow> Inl e
      | Inr (target', result) \<Rightarrow>
          (let eventPath = p @ [JStr property] in
           if oldValue \<noteq> JUndefined
             then Inr (result, target', emit CHANGE eventPath oldValue v s)
             else Inr (result, target', emit ASSIGN eventPath JUndefined v s)))"

definition observer_deleteProperty ::
  "'s emitter \<Rightarrow> val list \<Rightarrow> val \<Rightarrow> string \<Rightarrow> 's \<Rightarrow> error + (bool \<times> val \<times> 's)" where
  "observer_deleteProperty emit p target property s =
     (let oldValue = Reflect_get target property in
      case Reflect_deleteProperty target property of
        Inl e \<Rightarrow> Inl e
      | Inr (target', result) \<Rightarrow>
          Inr (result, target', emit REMOVE (p @ [JStr property]) oldValue JUndefined s))"

text \<open>
  The array handlers exist when \<open>Array.isArray(target)\<close>; on another target the
  name is not a function and the call throws.
\<close>

fun observer_push ::
  "'s emitter \<Rightarrow> val list \<Rightarrow> val \<Rightarrow> val list \<Rightarrow> 's \<Rightarrow> error + (val \<times> val \<times> 's)" where
  "observer_push emit p (JArr xs ps) items s =
     (let target' = xs @ items;
          result = JNum (int (length target'))
      in Inr (result, JArr target' ps,
              emit ADD (p @ [JNum (int (length target') - int (length items))]) JUndefined (JArr items []) s))"
| "observer_push emit p target items s = Inl TypeError"

fun observer_pop ::
  "'s emitter \<Rightarrow> val list \<Rightarrow> val \<Rightarrow> 's \<Rightarrow> error + (val \<times> val \<times> 's)" where
  "observer_pop emit p (JArr xs ps) s =
     (let oldValue = (if xs = [] then JUndefined else last xs);
          target' = butlast xs
      in Inr (oldValue, JArr target' ps,
              emit REMOVE (p @ [JNum (int (length target'))]) oldValue JUndefined s))"
| "observer_pop emit p target s = Inl TypeError"

fun observer_shift ::
  "'s emitter \<Rightarrow> val list \<Rightarrow> val \<Rightarrow> 's \<Rightarrow> error + (val \<times> val \<times> 's)" where
  "observer_shift emit p (JArr xs ps) s =
     (let oldValue = (case xs of [] \<Rightarrow> JUndefined | x # _ \<Rightarrow> x);
          target' = (case xs of [] \<Rightarrow> [] | _ # rest \<Rightarrow> rest)
      in Inr (oldValue, JArr target' ps, emit REMOVE (p @ [JNum 0]) oldValue JUndefined s))"
| "observer_shift emit p target s = Inl TypeError"

fun observer_unshift ::
  "'s emitter \<Rightarrow> val list \<Rightarrow> val \<Rightarrow> val list \<Rightarrow> 's \<Rightarrow> error + (val \<times> val \<times> 's)" where
  "observer_unshift emit p (JArr xs ps) items s =
     (let target' = items @ xs;
          result = JNum (int (length target'))
      in Inr (result, JArr target' ps, emit ADD (p @ [JNum 0]) JUndefined (JArr items []) s))"
| "observer_unshift emit p target items s = Inl TypeError"

text \<open>
  \<open>Array.prototype.splice(start, deleteCount, ...items)\<close> with integer \<open>start\<close> and
  \<open>deleteCount\<close>: a negative start counts from the end, both are clamped to the array.
  The handler always passes \<open>deleteCount\<close>.
\<close>

definition splice_start :: "int \<Rightarrow> nat \<Rightarrow> nat" where
  "splice_start start len = (if start < 0 then nat (max (int len + start) 0) else nat (min start (int len)))"

definition splice_count :: "int \<Rightarrow> nat \<Rightarrow> nat \<Rightarrow> nat" where
  "splice_count deleteCount len actualStart = nat (min (max deleteCount 0) (int len - int actualStart))"

definition array_splice :: "val list \<Rightarrow> int \<Rightarrow> int \<Rightarrow> val list \<Rightarrow> val list \<times> val list" where
  "array_splice xs start deleteCount items =
     (let a = splice_start start (length xs);
          d = splice_count deleteCount (length xs) a
      in (take d (drop a xs), take a xs @ items @ drop (a + d) xs))"

fun observer_splice ::
  "'s emitter \<Rightarrow> val list \<Rightarrow> val \<Rightarrow> int \<Rightarrow> int \<Rightarrow> val list \<Rightarrow> 's \<Rightarrow> error + (val \<times> val \<times> 's)" where
  "observer_splice emit p (JArr xs ps) start deleteCount items s =
     (let (deletedItems, target') = array_splice xs start deleteCount items;
          s1 = (if length deletedItems > 0
                then emit REMOVE (p @ [JNum start]) (JArr deletedItems []) JUndefined s else s);
          s2 = (if length items > 0
                then emit ADD (p @ [JNum start]) JUndefined (JArr items []) s1 else s1)
      in Inr (JArr deletedItems [], JArr target' ps, s2))"
| "observer_splice emit p target start deleteCount items s = Inl TypeError"

text \<open>
  \<open>sort(compareFn)\<close>: the first argument stands for \<open>Array.prototype.sort\<close> with the
  caller's \<open>compareFn\<close>, as a function from the elements to their sorted order.
\<close>

fun observer_sort ::
  "(val list \<Rightarrow> val list) \<Rightarrow> 's emitter \<Rightarrow> val list \<Rightarrow> val \<Rightarrow> 's \<Rightarrow> error + (val \<times> val \<times> 's)" where
  "observer_sort sort_by emit p (JArr xs ps) s =
     (let oldArr = JArr xs [];
          target' = JArr (sort_by xs) ps
      in Inr (target', target', emit MOVE p oldArr target' s))"
| "observer_sort sort_by emit p target s = Inl TypeError"

text \<open>The manager as its constructor leaves it: no event, no consumer.\<close>

definition new_manager :: "nat manager" where
  "new_manager = \<lparr>events = [], consumers = [], frames = 0, delivered = []\<rparr>"

section \<open>Array methods called on an observer\<close>

text \<open>
  \<open>createObserver\<close> copies its \<open>push\<close>, \<open>pop\<close>, \<open>shift\<close>, \<open>unshift\<close>, \<open>splice\<close> and
  \<open>sort\<close> functions into the object it passes to \<open>new Proxy\<close> as the handler. A
  proxy reads its handler for the trap names only (\<open>get\<close>, \<open>set\<close>, \<open>deleteProperty\<close>
  among them), and nothing else in the source reads those six properties. The
  method of a call such as \<open>proxy.pop()\<close> is looked up by the \<open>get\<close> trap, which
  returns \<open>Reflect.get(target, 'pop')\<close>: the built-in of \<open>Array.prototype\<close>, a function,
  returned as it is. The built-in runs with the proxy as \<open>this\<close>, so each property
  it reads, writes or deletes goes through the traps.

  The \<open>get\<close> trap: the value read, and the path of the further observer that wraps
  it when it is an object.
\<close>

definition observer_get :: "val list \<Rightarrow> val \<Rightarrow> string \<Rightarrow> val \<times> val list option" where
  "observer_get p target property =
     (let v = Reflect_get target property in
      if typeof v = ''object'' \<and> v \<noteq> JNull then (v, Some (p @ [JStr property]))
      else (v, None))"

type_synonym 's set_trap = "val \<Rightarrow> string \<Rightarrow> val \<Rightarrow> 's \<Rightarrow> error + (bool \<times> val \<times> 's)"

type_synonym 's delete_trap = "val \<Rightarrow> string \<Rightarrow> 's \<Rightarrow> error + (bool \<times> val \<times> 's)"

text \<open>
  The abstract operations of the language on the proxy. \<open>Set(O, P, V, true)\<close> and
  \<open>DeletePropertyOrThrow(O, P)\<close> call the trap and throw a TypeError when it
  returns false; \<open>Get(O, P)\<close> calls the \<open>get\<close> trap; \<open>HasProperty(O, P)\<close> has no trap
  and asks the target; \<open>LengthOfArrayLike(O)\<close> reads \<open>length\<close>.
\<close>

definition proxy_Set :: "'s set_trap \<Rightarrow> string \<Rightarrow> val \<Rightarrow> val \<Rightarrow> 's \<Rightarrow> error + (val \<times> 's)" where
  "proxy_Set set_trap property v target s =
     (case set_trap target property v s of
        Inl e \<Rightarrow> Inl e
      | Inr (ok, target', s') \<Rightarrow> if ok then Inr (target', s') else Inl TypeError)"

definition proxy_Delete :: "'s delete_trap \<Rightarrow> string \<Rightarrow> val \<Rightarrow> 's \<Rightarrow> error + (val \<times> 's)" where
  "proxy_Delete delete_trap property target s =
     (case delete_trap target property s of
        Inl e \<Rightarrow> Inl e
      | Inr (ok, target', s') \<Rightarrow> if ok then Inr (target', s') else Inl TypeError)"

definition proxy_Get :: "val \<Rightarrow> string \<Rightarrow> val" where
  "proxy_Get target property = fst (observer_get [] target property)"

fun HasProperty :: "val \<Rightarrow> string \<Rightarrow> bool" where
  "HasProperty (JObj kvs) k = (map_of kvs k \<noteq> None)"
| "HasProperty (JArr xs ps) k =
     (case array_index k of
        Some i \<Rightarrow> i < length xs
      | None \<Rightarrow> k = ''length'' \<or> map_of ps k \<noteq> None)"
| "HasProperty target k = False"

definition LengthOfArrayLike :: "val \<Rightarrow> nat" where
  "LengthOfArrayLike target = (case proxy_Get target ''length'' of JNum n \<Rightarrow> nat n | _ \<Rightarrow> 0)"

text \<open>A sequence of steps on the target and the emitter's state, ended by the first throw.\<close>

fun run_steps ::
  "('a \<Rightarrow> val \<Rightarrow> 's \<Rightarrow> error + (val \<times> 's)) \<Rightarrow> 'a list \<Rightarrow> val \<Rightarrow> 's \<Rightarrow> error + (val \<times> 's)" where
  "run_steps f [] target s = Inr (target, s)"
| "run_steps f (x # xs) target s =
     (case f x target s of Inl e \<Rightarrow> Inl e | Inr (target', s') \<Rightarrow> run_steps f xs target' s')"

text \<open>
  The step shared by \<open>shift\<close>, \<open>unshift\<close> and \<open>splice\<close>: move the element at index
  \<open>from\<close> to index \<open>to\<close> when it is present, delete index \<open>to\<close> otherwise.
\<close>

definition move_step :: "'s set_trap \<Rightarrow> 's delete_trap \<Rightarrow> nat \<times> nat \<Rightarrow> val \<Rightarrow> 's \<Rightarrow> error + (val \<times> 's)" where
  "move_step set_trap delete_trap ft target s =
     (if HasProperty target (show_nat (fst ft))
      then proxy_Set set_trap (show_nat (snd ft)) (proxy_Get target (show_nat (fst ft))) target s
      else proxy_Delete delete_trap (show_nat (snd ft)) target s)"

text \<open>\<open>Array.prototype.push\<close>: write the items from index \<open>length\<close> on, then write \<open>length\<close>.\<close>

definition Array_prototype_push ::
  "'s set_trap \<Rightarrow> val \<Rightarrow> val list \<Rightarrow> 's \<Rightarrow> error + (val \<times> val \<times> 's)" where
  "Array_prototype_push set_trap target items s =
     (let len = LengthOfArrayLike target in
      case run_steps (\<lambda>kE. proxy_Set set_trap (show_nat (fst kE)) (snd kE))
             (zip [len ..< len + length items] items) target s of
        Inl e \<Rightarrow> Inl e
      | Inr (t1, s1) \<Rightarrow>
          (case proxy_Set set_trap ''length'' (JNum (int (len + length items))) t1 s1 of
             Inl e \<Rightarrow> Inl e
           | Inr (t2, s2) \<Rightarrow> Inr (JNum (int (len + length items)), t2, s2)))"

text \<open>
  \<open>Array.prototype.pop\<close>: on length 0 write \<open>length\<close> 0 and return \<open>undefined\<close>;
  otherwise read the last element, delete its index and write the new \<open>length\<close>.
\<close>

definition Array_prototype_pop ::
  "'s set_trap \<Rightarrow> 's delete_trap \<Rightarrow> val \<Rightarrow> 's \<Rightarrow> error + (val \<times> val \<times> 's)" where
  "Array_prototype_pop set_trap delete_trap target s =
     (let len = LengthOfArrayLike target in
      if len = 0 then
        (case proxy_Set set_trap ''length'' (JNum 0) target s of
           Inl e \<Rightarrow> Inl e
         | Inr (t1, s1) \<Rightarrow> Inr (JUndefined, t1, s1))
      else
        (let index = show_nat (len - 1);
             element = proxy_Get target index
         in case proxy_Delete delete_trap index target s of
              Inl e \<Rightarrow> Inl e
            | Inr (t1, s1) \<Rightarrow>
                (case proxy_Set set_trap ''length'' (JNum (int (len - 1))) t1 s1 of
                   Inl e \<Rightarrow> Inl e
                 | Inr (t2, s2) \<Rightarrow> Inr (element, t2, s2))))"

text \<open>
  \<open>Array.prototype.shift\<close>: on length 0 as \<open>pop\<close>; otherwise read index 0, move
  each later element one index down, delete the last index and write the new \<open>length\<close>.
\<close>

definition Array_prototype_shift ::
  "'s set_trap \<Rightarrow> 's delete_trap \<Rightarrow> val \<Rightarrow> 's \<Rightarrow> error + (val \<times> val \<times> 's)" where
  "Array_prototype_shift set_trap delete_trap target s =
     (let len = LengthOfArrayLike target in
      if len = 0 then
        (case proxy_Set set_trap ''length'' (JNum 0) target s of
           Inl e \<Rightarrow> Inl e
         | Inr (t1, s1) \<Rightarrow> Inr (JUndefined, t1, s1))
      else
        (let first = proxy_Get target ''0'' in
         case run_steps (move_step set_trap delete_trap) (map (\<lambda>k. (k, k - 1)) [1 ..< len]) target s of
           Inl e \<Rightarrow> Inl e
         | Inr (t1, s1) \<Rightarrow>
             (case proxy_Delete delete_trap (show_nat (len - 1)) t1 s1 of
                Inl e \<Rightarrow> Inl e
              | Inr (t2, s2) \<Rightarrow>
                  (case proxy_Set set_trap ''length'' (JNum (int (len - 1))) t2 s2 of
                     Inl e \<Rightarrow> Inl e
                   | Inr (t3, s3) \<Rightarrow> Inr (first, t3, s3)))))"

text \<open>
  \<open>Array.prototype.splice(start, deleteCount, ...items)\<close>, called with \<open>start\<close> and
  \<open>deleteCount\<close> given, both integers: copy the deleted elements into a new array; when fewer items come in than go out, move the tail down and
  delete the indices left over at the end; when more come in, move the tail up,
  from its end; write the items from \<open>start\<close> on; write \<open>length\<close>; return the copy.
\<close>

definition Array_prototype_splice ::
  "'s set_trap \<Rightarrow> 's delete_trap \<Rightarrow> val \<Rightarrow> int \<Rightarrow> int \<Rightarrow> val list \<Rightarrow> 's \<Rightarrow> error + (val \<times> val \<times> 's)" where
  "Array_prototype_splice set_trap delete_trap target start deleteCount items s =
     (let len = LengthOfArrayLike target;
          actualStart = splice_start start len;
          itemCount = length items;
          actualDeleteCount = splice_count deleteCount len actualStart;
          A = map (\<lambda>k. proxy_Get target (show_nat (actualStart + k))) [0 ..< actualDeleteCount];
          moves =
            (if itemCount < actualDeleteCount then
               run_steps (move_step set_trap delete_trap)
                 (map (\<lambda>k. (k + actualDeleteCount, k + itemCount)) [actualStart ..< len - actualDeleteCount])
                 target s
             else if itemCount > actualDeleteCount then
               run_steps (move_step set_trap delete_trap)
                 (map (\<lambda>k. (k + actualDeleteCount - 1, k + itemCount - 1))
                    (rev [Suc actualStart ..< Suc (len - actualDeleteCount)]))
                 target s
             else Inr (target, s))
      in case moves of
           Inl e \<Rightarrow> Inl e
         | Inr (t1, s1) \<Rightarrow>
             (case (if itemCount < actualDeleteCount
                    then run_steps (\<lambda>k. proxy_Delete delete_trap (show_nat (k - 1)))
                           (rev [Suc (len - actualDeleteCount + itemCount) ..< Suc len]) t1 s1
                    else Inr (t1, s1)) of
                Inl e \<Rightarrow> Inl e
              | Inr (t2, s2) \<Rightarrow>
                  (case run_steps (\<lambda>kE. proxy_Set set_trap (show_nat (fst kE)) (snd kE))
                          (zip [actualStart ..< actualStart + itemCount] items) t2 s2 of
                     Inl e \<Rightarrow> Inl e
                   | Inr (t3, s3) \<Rightarrow>
                       (case proxy_Set set_trap ''length''
                               (JNum (int (len - actualDeleteCount + itemCount))) t3 s3 of
                          Inl e \<Rightarrow> Inl e
                        | Inr (t4, s4) \<Rightarrow> Inr (JArr A [], t4, s4)))))"

text \<open>
  Between two states of the manager the queue has only grown, and by events of the
  kinds the traps emit: none is \<open>ADD\<close> or \<open>MOVE\<close>.
\<close>

definition trap_events :: "'c manager \<Rightarrow> 'c manager \<Rightarrow> bool" where
  "trap_events m m' =
     (\<exists>es. events m' = events m @ es \<and> list_all (\<lambda>e. ev_event e \<noteq> ADD \<and> ev_event e \<noteq> MOVE) es)"

section \<open>Template: placeholders\<close>


definition curlyBraces_wc :: string where
  "curlyBraces_wc = ''{''"






text \<open>\<open>s.startsWith(opener) ? s.slice(length of opener, -1) : s\<close>.\<close>

definition Template_keyFrom :: "string \<Rightarrow> string \<Rightarrow> string" where
  "Template_keyFrom opener s =
     (if take (length opener) s = opener then butlast (drop (length opener) s) else s)"




section \<open>StateManager: subscriptions and the flush\<close>

text \<open>
  \<open>consumers\<close> is a \<open>Map\<close> from the serialized path to the consumers registered
  under it, in registration order. \<open>subscribe(path, vars, consumer)\<close> registers the
  consumer once for each placeholder of \<open>vars\<close>, under \<open>[...path, key].toString()\<close>.
\<close>

definition subscribe_subject :: "string \<Rightarrow> 'c \<Rightarrow> (string \<times> 'c list) list \<Rightarrow> (string \<times> 'c list) list" where
  "subscribe_subject subject consumer cs =
     (case map_of cs subject of
        Some subs \<Rightarrow> alist_set subject (subs @ [consumer]) cs
      | None \<Rightarrow> alist_set subject [consumer] cs)"

definition subscribe :: "string \<Rightarrow> string list \<Rightarrow> string list \<Rightarrow> 'c \<Rightarrow> 'c manager \<Rightarrow> 'c manager" where
  "subscribe opener p vars consumer m =
     m\<lparr>consumers :=
         foldl (\<lambda>cs key. subscribe_subject (toString (map JStr (p @ [key]))) consumer cs)
           (consumers m) (map (Template_keyFrom opener) vars)\<rparr>"

text \<open>
  One turn of the loop of \<open>#processEvents\<close> collects, over the entries of the map, the
  consumers whose subject equals \<open>path.join()\<close>, and calls them in that order.
\<close>

definition matching :: "(string \<times> 'c list) list \<Rightarrow> val list \<Rightarrow> 'c list" where
  "matching cs p = concat (map snd (filter (\<lambda>entry. fst entry = join p) cs))"

text \<open>
  What a consumer does when called is given by \<open>call\<close>: the events its body emits by
  mutating the observed state, each through \<open>#emitEvent\<close>. The consumer is passed
  the event (its path alone in \<open>part_000\<close>). The call is logged.
\<close>

definition emit_all :: "ev list \<Rightarrow> 'c manager \<Rightarrow> 'c manager" where
  "emit_all es m = foldl (\<lambda>m' e. emitEvent (ev_event e) (ev_path e) (ev_oldValue e) (ev_newValue e) m') m es"

fun call_consumers :: "('c \<Rightarrow> ev \<Rightarrow> ev list) \<Rightarrow> 'c list \<Rightarrow> ev \<Rightarrow> 'c manager \<Rightarrow> 'c manager" where
  "call_consumers call [] e m = m"
| "call_consumers call (c # cs) e m =
     call_consumers call cs e (emit_all (call c e) (m\<lparr>delivered := delivered m @ [(c, e)]\<rparr>))"

text \<open>
  \<open>#processEvents\<close>: while the queue is not empty, shift its first event and call
  the matching consumers. The loop need not end: a consumer may enqueue again.
\<close>

partial_function (option) processEvents :: "('c \<Rightarrow> ev \<Rightarrow> ev list) \<Rightarrow> 'c manager \<Rightarrow> 'c manager option" where
  "processEvents call m =
     (case events m of
        [] \<Rightarrow> Some m
      | e # rest \<Rightarrow>
          processEvents call
            (call_consumers call (matching (consumers m) (ev_path e)) e (m\<lparr>events := rest\<rparr>)))"

text \<open>
  For one processed event: the events its consumers enqueue, and the consumer calls
  it gives rise to, both in call order.
\<close>

definition emitted_by :: "('c \<Rightarrow> ev \<Rightarrow> ev list) \<Rightarrow> (string \<times> 'c list) list \<Rightarrow> ev \<Rightarrow> ev list" where
  "emitted_by call cs e = concat (map (\<lambda>c. call c e) (matching cs (ev_path e)))"

definition calls_for :: "(string \<times> 'c list) list \<Rightarrow> ev \<Rightarrow> ('c \<times> ev) list" where
  "calls_for cs e = map (\<lambda>c. (c, e)) (matching cs (ev_path e))"

section \<open>Resolving placeholders against the state\<close>










section \<open>Attribute bindings (web-component.js)\<close>










section \<open>Properties of the observer handlers\<close>






text \<open>
  The observer with the exemption leaves the emitter's state as it was when the
  written value is a function.
\<close>

lemma observer_set_function_silent:
  "typeof v = ''function'' \<Longrightarrow> observer_set emit p target property v s = Inr (result, target', s')
     \<Longrightarrow> s' = s"
  by (auto simp: observer_set_def Let_def split: sum.splits)

text \<open>
  C6. A \<open>set\<close> that writes a function emits no event. The observer of
  \<open>web-component.js\<close> has no test of the value's type: writing a function to a fresh
  property of an empty state enqueues an \<open>ASSIGN\<close> event and requests a frame.
\<close>

theorem set_wc_function_emits:
  "observer_set_wc emitEvent [] (JObj []) ''greet'' (JFun ''() => 1'') new_manager
     = Inr (True, JObj [(''greet'', JFun ''() => 1'')],
            new_manager\<lparr>events := [\<lparr>ev_event = ASSIGN, ev_path = [JStr ''greet''],
                                      ev_oldValue = JUndefined, ev_newValue = JFun ''() => 1''\<rparr>],
                        frames := 1\<rparr>)"
  by (simp add: observer_set_wc_def Reflect_get_def emitEvent_def new_manager_def)

subsection \<open>The array functions of createObserver\<close>

text \<open>
  What the \<open>splice\<close> function of \<open>createObserver\<close> does when it is called: it
  returns the deleted elements and emits \<open>REMOVE\<close> at the path ending in \<open>start\<close>,
  carrying them, exactly when there is a deleted element, and after it \<open>ADD\<close> at the
  same path, carrying the inserted items, exactly when there is an inserted item.
\<close>

lemma observer_splice_events:
  "\<exists>m'. observer_splice emitEvent p (JArr xs ps) start deleteCount items m =
          Inr (JArr (fst (array_splice xs start deleteCount items)) [],
               JArr (snd (array_splice xs start deleteCount items)) ps, m')
      \<and> events m' = events m
          @ (if fst (array_splice xs start deleteCount items) \<noteq> []
             then [\<lparr>ev_event = REMOVE, ev_path = p @ [JNum start],
                    ev_oldValue = JArr (fst (array_splice xs start deleteCount items)) [],
                    ev_newValue = JUndefined\<rparr>] else [])
          @ (if items \<noteq> []
             then [\<lparr>ev_event = ADD, ev_path = p @ [JNum start],
                    ev_oldValue = JUndefined, ev_newValue = JArr items []\<rparr>] else [])"
  by (auto simp: emitEvent_def Let_def split: prod.splits)

text \<open>Something is deleted when \<open>deleteCount\<close> is positive and the clamped start is inside the array.\<close>

lemma array_splice_deleted:
  "fst (array_splice xs start deleteCount items) \<noteq> []
     \<longleftrightarrow> 0 < deleteCount \<and> splice_start start (length xs) < length xs"
  by (auto simp: array_splice_def Let_def splice_count_def)

text \<open>
  Deleting a property an object does not have leaves the object as it is and emits
  \<open>REMOVE\<close> with old value \<open>undefined\<close>. The \<open>pop\<close> and \<open>shift\<close> functions of
  \<open>createObserver\<close>, when called on an empty array, return \<open>undefined\<close>, leave it
  empty and emit \<open>REMOVE\<close> at index 0 with old value \<open>undefined\<close>.
\<close>

lemma observer_remove_without_slot:
  "(map_of kvs property = None \<longrightarrow>
      observer_deleteProperty emitEvent p (JObj kvs) property m =
        Inr (True, JObj kvs,
             m\<lparr>events := events m @ [\<lparr>ev_event = REMOVE, ev_path = p @ [JStr property],
                                       ev_oldValue = JUndefined, ev_newValue = JUndefined\<rparr>],
               frames := Suc (frames m)\<rparr>))
   \<and> observer_pop emitEvent p (JArr [] ps) m =
        Inr (JUndefined, JArr [] ps,
             m\<lparr>events := events m @ [\<lparr>ev_event = REMOVE, ev_path = p @ [JNum 0],
                                       ev_oldValue = JUndefined, ev_newValue = JUndefined\<rparr>],
               frames := Suc (frames m)\<rparr>)
   \<and> observer_shift emitEvent p (JArr [] ps) m =
        Inr (JUndefined, JArr [] ps,
             m\<lparr>events := events m @ [\<lparr>ev_event = REMOVE, ev_path = p @ [JNum 0],
                                       ev_oldValue = JUndefined, ev_newValue = JUndefined\<rparr>],
               frames := Suc (frames m)\<rparr>)"
proof -
  have "map_of kvs property = None \<Longrightarrow> alist_delete property kvs = kvs"
    by (induction kvs) (auto simp: alist_delete_def split: if_splits)
  then show ?thesis
    by (auto simp: observer_deleteProperty_def Reflect_get_def emitEvent_def Let_def)
qed

subsection \<open>The array methods as a call on the observer runs them\<close>

text \<open>The built-ins over the traps compute the same arrays and results as the functions of \<open>createObserver\<close>.\<close>

lemma builtin_splice_same_array:
  "map (\<lambda>(a, d, items).
         (case Array_prototype_splice (observer_set emitEvent []) (observer_deleteProperty emitEvent [])
                 (JArr [JNum 1, JNum 2, JNum 3, JNum 4, JNum 5] []) a d items new_manager of
            Inr (r, t, s) \<Rightarrow> Some (r, t) | Inl e \<Rightarrow> None))
       [(1, 2, []), (1, 2, [JNum 7]), (1, 1, [JNum 7, JNum 8, JNum 9]), (-2, 5, [JNum 7]),
        (0, 0, []), (9, 1, [JNum 0]), (0, 5, []), (2, -1, [JNum 6, JNum 6])]
   = map (\<lambda>(a, d, items).
         (case observer_splice emitEvent [] (JArr [JNum 1, JNum 2, JNum 3, JNum 4, JNum 5] []) a d items
                 new_manager of
            Inr (r, t, s) \<Rightarrow> Some (r, t) | Inl e \<Rightarrow> None))
       [(1, 2, []), (1, 2, [JNum 7]), (1, 1, [JNum 7, JNum 8, JNum 9]), (-2, 5, [JNum 7]),
        (0, 0, []), (9, 1, [JNum 0]), (0, 5, []), (2, -1, [JNum 6, JNum 6])]"
  by code_simp

lemma builtin_shift_pop_push_same_array:
  "map (\<lambda>xs.
         (case Array_prototype_shift (observer_set emitEvent []) (observer_deleteProperty emitEvent [])
                 (JArr xs []) new_manager of
            Inr (r, t, s) \<Rightarrow> Some (r, t) | Inl e \<Rightarrow> None,
          case Array_prototype_pop (observer_set emitEvent []) (observer_deleteProperty emitEvent [])
                 (JArr xs []) new_manager of
            Inr (r, t, s) \<Rightarrow> Some (r, t) | Inl e \<Rightarrow> None,
          case Array_prototype_push (observer_set emitEvent []) (JArr xs []) [JNum 8, JNum 9] new_manager of
            Inr (r, t, s) \<Rightarrow> Some (r, t) | Inl e \<Rightarrow> None))
       [[], [JNum 1], [JNum 1, JNum 2, JNum 3]]
   = map (\<lambda>xs.
         (case observer_shift emitEvent [] (JArr xs []) new_manager of
            Inr (r, t, s) \<Rightarrow> Some (r, t) | Inl e \<Rightarrow> None,
          case observer_pop emitEvent [] (JArr xs []) new_manager of
            Inr (r, t, s) \<Rightarrow> Some (r, t) | Inl e \<Rightarrow> None,
          case observer_push emitEvent [] (JArr xs []) [JNum 8, JNum 9] new_manager of
            Inr (r, t, s) \<Rightarrow> Some (r, t) | Inl e \<Rightarrow> None))
       [[], [JNum 1], [JNum 1, JNum 2, JNum 3]]"
  by code_simp

lemma trap_events_refl: "trap_events m m"
  by (simp add: trap_events_def)

lemma trap_events_trans: "trap_events m m1 \<Longrightarrow> trap_events m1 m2 \<Longrightarrow> trap_events m m2"
  by (auto simp: trap_events_def)

lemma proxy_Set_trap_events:
  "proxy_Set (observer_set emitEvent p) k v t m = Inr (t', m') \<Longrightarrow> trap_events m m'"
  "proxy_Set (observer_set_wc emitEvent p) k v t m = Inr (t', m') \<Longrightarrow> trap_events m m'"
  by (auto simp: proxy_Set_def observer_set_def observer_set_wc_def emitEvent_def trap_events_def Let_def
      split: sum.splits if_splits)

lemma proxy_Delete_trap_events:
  "proxy_Delete (observer_deleteProperty emitEvent p) k t m = Inr (t', m') \<Longrightarrow> trap_events m m'"
  by (auto simp: proxy_Delete_def observer_deleteProperty_def emitEvent_def trap_events_def Let_def
      split: sum.splits if_splits)

lemma run_steps_trap_events:
  assumes "\<And>x t m t' m'. f x t m = Inr (t', m') \<Longrightarrow> trap_events m m'"
  shows "run_steps f xs t m = Inr (t', m') \<Longrightarrow> trap_events m m'"
proof (induction xs arbitrary: t m)
  case Nil
  then show ?case by (simp add: trap_events_refl)
next
  case (Cons x xs)
  then show ?case
    by (auto split: sum.splits intro: trap_events_trans assms)
qed

lemma move_step_trap_events:
  assumes "set_trap = observer_set emitEvent p \<or> set_trap = observer_set_wc emitEvent p"
  shows "move_step set_trap (observer_deleteProperty emitEvent p) ft t m = Inr (t', m') \<Longrightarrow> trap_events m m'"
  using assms
  by (auto simp: move_step_def split: if_splits dest: proxy_Set_trap_events proxy_Delete_trap_events)

text \<open>
  A \<open>splice\<close> call on an observer, with either \<open>set\<close> trap, enqueues no \<open>ADD\<close>
  event, whatever it inserts.
\<close>

lemma splice_call_never_adds:
  assumes "set_trap = observer_set emitEvent p \<or> set_trap = observer_set_wc emitEvent p"
    and "Array_prototype_splice set_trap (observer_deleteProperty emitEvent p) target start deleteCount items m
           = Inr (result, target', m')"
  shows "\<exists>es. events m' = events m @ es \<and> list_all (\<lambda>e. ev_event e \<noteq> ADD \<and> ev_event e \<noteq> MOVE) es"
proof -
  have st: "\<And>k v t m t' m'. proxy_Set set_trap k v t m = Inr (t', m') \<Longrightarrow> trap_events m m'"
    using assms(1) by (auto dest: proxy_Set_trap_events)
  have mv: "\<And>ft t m t' m'. move_step set_trap (observer_deleteProperty emitEvent p) ft t m = Inr (t', m')
              \<Longrightarrow> trap_events m m'"
    using assms(1) by (rule move_step_trap_events)
  have rs_set: "\<And>xs t m t' m'. run_steps (\<lambda>kE. proxy_Set set_trap (show_nat (fst kE)) (snd kE)) xs t m = Inr (t', m')
              \<Longrightarrow> trap_events m m'"
    by (erule run_steps_trap_events[rotated]) (rule st)
  have rs_del: "\<And>g xs t m t' m'. run_steps (\<lambda>k. proxy_Delete (observer_deleteProperty emitEvent p) (g k)) xs t m = Inr (t', m')
              \<Longrightarrow> trap_events m m'"
    by (erule run_steps_trap_events[rotated]) (rule proxy_Delete_trap_events)
  have rs_mv: "\<And>xs t m t' m'. run_steps (move_step set_trap (observer_deleteProperty emitEvent p)) xs t m = Inr (t', m')
              \<Longrightarrow> trap_events m m'"
    by (erule run_steps_trap_events[rotated]) (rule mv)
  from assms(2) have "trap_events m m'"
    unfolding Array_prototype_splice_def Let_def
    apply (auto simp del: run_steps.simps upt_Suc rev.simps upt.simps
             split: sum.splits if_splits
             dest!: rs_set rs_del rs_mv st)
      apply (blast intro: trap_events_trans)+
    done
  then show ?thesis by (simp add: trap_events_def)
qed

text \<open>
  C7. A \<open>splice\<close> call on an observed array is to emit \<open>REMOVE\<close> at the path
  ending in \<open>start\<close> exactly when an element was deleted, and then \<open>ADD\<close> at that
  path exactly when an item was inserted. \<open>state.xs.splice(0, 1, 'x')\<close> on the
  observed array \<open>[1]\<close> deletes one element and inserts one; the call runs the
  built-in over the traps, returns \<open>[1]\<close> and enqueues \<open>CHANGE\<close> at \<open>["xs","0"]\<close>
  and \<open>CHANGE\<close> at \<open>["xs","length"]\<close>, neither \<open>REMOVE\<close> nor \<open>ADD\<close>, with either
  \<open>set\<close> trap. \<open>state.xs.splice(0, 0, 'x')\<close> on \<open>[]\<close> enqueues \<open>ASSIGN\<close> at
  \<open>["xs","0"]\<close> and \<open>CHANGE\<close> at \<open>["xs","length"]\<close>.
\<close>

theorem splice_call_emits_no_remove_add:
  "Array_prototype_splice (observer_set emitEvent [JStr ''xs''])
       (observer_deleteProperty emitEvent [JStr ''xs'']) (JArr [JNum 1] []) 0 1 [JStr ''x''] new_manager
     = Inr (JArr [JNum 1] [], JArr [JStr ''x''] [],
            \<lparr>events =
               [\<lparr>ev_event = CHANGE, ev_path = [JStr ''xs'', JStr ''0''],
                 ev_oldValue = JNum 1, ev_newValue = JStr ''x''\<rparr>,
                \<lparr>ev_event = CHANGE, ev_path = [JStr ''xs'', JStr ''length''],
                 ev_oldValue = JNum 1, ev_newValue = JNum 1\<rparr>],
             consumers = [], frames = 2, delivered = []\<rparr>)
   \<and> Array_prototype_splice (observer_set_wc emitEvent [JStr ''xs''])
       (observer_deleteProperty emitEvent [JStr ''xs'']) (JArr [JNum 1] []) 0 1 [JStr ''x''] new_manager
     = Inr (JArr [JNum 1] [], JArr [JStr ''x''] [],
            \<lparr>events =
               [\<lparr>ev_event = CHANGE, ev_path = [JStr ''xs'', JStr ''0''],
                 ev_oldValue = JNum 1, ev_newValue = JStr ''x''\<rparr>,
                \<lparr>ev_event = CHANGE, ev_path = [JStr ''xs'', JStr ''length''],
                 ev_oldValue = JNum 1, ev_newValue = JNum 1\<rparr>],
             consumers = [], frames = 2, delivered = []\<rparr>)
   \<and> Array_prototype_splice (observer_set emitEvent [JStr ''xs''])
       (observer_deleteProperty emitEvent [JStr ''xs'']) (JArr [] []) 0 0 [JStr ''x''] new_manager
     = Inr (JArr [] [], JArr [JStr ''x''] [],
            \<lparr>events =
               [\<lparr>ev_event = ASSIGN, ev_path = [JStr ''xs'', JStr ''0''],
                 ev_oldValue = JUndefined, ev_newValue = JStr ''x''\<rparr>,
                \<lparr>ev_event = CHANGE, ev_path = [JStr ''xs'', JStr ''length''],
                 ev_oldValue = JNum 1, ev_newValue = JNum 1\<rparr>],
             consumers = [], frames = 2, delivered = []\<rparr>)"
  by code_simp

text \<open>
  C9. Deleting an absent property, and \<open>pop\<close> or \<open>shift\<close> on an empty array, are
  each to emit \<open>REMOVE\<close> with payload \<open>undefined\<close>. \<open>state.xs.pop()\<close> and
  \<open>state.xs.shift()\<close> on the observed empty array run the built-ins over the
  traps: each returns \<open>undefined\<close> and enqueues one \<open>CHANGE\<close> at
  \<open>["xs","length"]\<close> from 0 to 0, and no \<open>REMOVE\<close>.
\<close>

theorem pop_shift_call_emits_no_remove:
  "Array_prototype_pop (observer_set emitEvent [JStr ''xs''])
       (observer_deleteProperty emitEvent [JStr ''xs'']) (JArr [] []) new_manager
     = Inr (JUndefined, JArr [] [],
            \<lparr>events =
               [\<lparr>ev_event = CHANGE, ev_path = [JStr ''xs'', JStr ''length''],
                 ev_oldValue = JNum 0, ev_newValue = JNum 0\<rparr>],
             consumers = [], frames = 1, delivered = []\<rparr>)
   \<and> Array_prototype_shift (observer_set emitEvent [JStr ''xs''])
       (observer_deleteProperty emitEvent [JStr ''xs'']) (JArr [] []) new_manager
     = Inr (JUndefined, JArr [] [],
            \<lparr>events =
               [\<lparr>ev_event = CHANGE, ev_path = [JStr ''xs'', JStr ''length''],
                 ev_oldValue = JNum 0, ev_newValue = JNum 0\<rparr>],
             consumers = [], frames = 1, delivered = []\<rparr>)
   \<and> Array_prototype_pop (observer_set_wc emitEvent [JStr ''xs''])
       (observer_deleteProperty emitEvent [JStr ''xs'']) (JArr [] []) new_manager
     = Inr (JUndefined, JArr [] [],
            \<lparr>events =
               [\<lparr>ev_event = CHANGE, ev_path = [JStr ''xs'', JStr ''length''],
                 ev_oldValue = JNum 0, ev_newValue = JNum 0\<rparr>],
             consumers = [], frames = 1, delivered = []\<rparr>)"
  by code_simp

section \<open>Properties of the subscriptions and the flush\<close>

lemma emit_all_fields:
  "events (emit_all es m) = events m @ es"
  "consumers (emit_all es m) = consumers m"
  "delivered (emit_all es m) = delivered m"
  "frames (emit_all es m) = frames m + length es"
  unfolding emit_all_def
  by (induction es arbitrary: m) (simp_all add: emitEvent_def)

lemma call_consumers_fields:
  "events (call_consumers call cs e m) = events m @ concat (map (\<lambda>c. call c e) cs)"
  "consumers (call_consumers call cs e m) = consumers m"
  "delivered (call_consumers call cs e m) = delivered m @ map (\<lambda>c. (c, e)) cs"
  by (induction cs arbitrary: m) (simp_all add: emit_all_fields)

text \<open>
  A flush that returns has emptied the queue. The events it processed are the queue
  at its start followed by the events its consumers enqueued meanwhile, and the
  consumer calls it made are those of the processed events, in that order.
\<close>

lemma processEvents_partial:
  "processEvents call m = Some m' \<Longrightarrow>
     events m' = [] \<and> consumers m' = consumers m \<and>
     (\<exists>P. P = events m @ concat (map (emitted_by call (consumers m)) P)
        \<and> delivered m' = delivered m @ concat (map (calls_for (consumers m)) P))"
proof (induction rule: processEvents.raw_induct[rotated 1, consumes 1, case_names step])
  case (step pe call m m')
  note 1 = step
  show ?case
  proof (cases "events m")
    case Nil
    with 1(2) have "m' = m" by simp
    with Nil show ?thesis by (auto intro: exI[of _ "[]"])
  next
    case (Cons e rest)
    let ?m1 = "call_consumers call (matching (consumers m) (ev_path e)) e (m\<lparr>events := rest\<rparr>)"
    from 1(2) Cons have "pe call ?m1 = Some m'" by simp
    from 1(1)[OF this] obtain P where
      a: "events m' = []" and b: "consumers m' = consumers ?m1" and
      c: "P = events ?m1 @ concat (map (emitted_by call (consumers ?m1)) P)" and
      d: "delivered m' = delivered ?m1 @ concat (map (calls_for (consumers ?m1)) P)"
      by blast
    have cs: "consumers ?m1 = consumers m" by (simp add: call_consumers_fields)
    have ev1: "events ?m1 = rest @ emitted_by call (consumers m) e"
      by (simp add: call_consumers_fields emitted_by_def)
    have dl1: "delivered ?m1 = delivered m @ calls_for (consumers m) e"
      by (simp add: call_consumers_fields calls_for_def)
    have p1: "e # P = events m @ concat (map (emitted_by call (consumers m)) (e # P))"
      using c Cons ev1 cs by simp
    have p2: "delivered m' = delivered m @ concat (map (calls_for (consumers m)) (e # P))"
      using d dl1 cs by simp
    have "\<exists>P. P = events m @ concat (map (emitted_by call (consumers m)) P)
        \<and> delivered m' = delivered m @ concat (map (calls_for (consumers m)) P)"
      using p1 p2 by (intro exI[of _ "e # P"] conjI)
    with a b cs show ?thesis by simp
  qed
qed

text \<open>With consumers that enqueue nothing the flush returns, having called the consumers of each queued event in queue order.\<close>

lemma processEvents_quiet:
  assumes "\<forall>c e. call c e = []"
  shows "processEvents call m =
     Some (m\<lparr>events := [], delivered := delivered m @ concat (map (calls_for (consumers m)) (events m))\<rparr>)"
proof (induction "events m" arbitrary: m)
  case Nil
  then show ?case by (subst processEvents.simps) simp
next
  case (Cons e rest)
  let ?m1 = "call_consumers call (matching (consumers m) (ev_path e)) e (m\<lparr>events := rest\<rparr>)"
  have q: "\<And>cs m. call_consumers call cs e m = m\<lparr>delivered := delivered m @ map (\<lambda>c. (c, e)) cs\<rparr>"
  proof -
    fix cs :: "'a list" and m :: "'a manager"
    show "call_consumers call cs e m = m\<lparr>delivered := delivered m @ map (\<lambda>c. (c, e)) cs\<rparr>"
      using assms by (induction cs arbitrary: m) (simp_all add: emit_all_def)
  qed
  have ev1: "rest = events ?m1" by (simp add: call_consumers_fields emitted_by_def assms)
  from Cons(1)[OF ev1] have "processEvents call ?m1 =
     Some (?m1\<lparr>events := [], delivered := delivered ?m1 @ concat (map (calls_for (consumers ?m1)) (events ?m1))\<rparr>)" .
  moreover have "processEvents call m = processEvents call ?m1"
    using Cons(2)[symmetric] by (subst processEvents.simps) simp
  ultimately show ?case using Cons(2)[symmetric]
    by (simp add: q calls_for_def)
qed



lemma distinct_alist_set:
  "distinct (map fst cs) \<Longrightarrow> distinct (map fst (alist_set k v cs))"
proof (induction cs)
  case Nil
  then show ?case by simp
next
  case (Cons a cs)
  have keys: "\<And>cs. fst ` set (alist_set k v cs) = insert k (fst ` set cs)"
  proof -
    fix cs :: "(string \<times> 'a) list"
    show "fst ` set (alist_set k v cs) = insert k (fst ` set cs)"
      by (induction cs) auto
  qed
  from Cons show ?case by (auto simp: keys)
qed




text \<open>
  C10. The subscription key of a path of strings is its segments joined by commas.
  The paths \<open>["a,b"]\<close> and \<open>["a","b"]\<close> differ and have the same key, so a
  consumer subscribed under either is called for an event at the other.
\<close>

theorem join_not_injective:
  "join (map JStr ss) = intercalate '','' ss
   \<and> [JStr ''a,b''] \<noteq> [JStr ''a'', JStr ''b'']
   \<and> join [JStr ''a,b''] = join [JStr ''a'', JStr ''b'']
   \<and> matching (consumers (subscribe curlyBraces_wc [] [''{a,b}''] c new_manager)) [JStr ''a'', JStr ''b''] = [c]
   \<and> matching (consumers (subscribe curlyBraces_wc [''a''] [''{b}''] c new_manager)) [JStr ''a,b''] = [c]
   \<and> processEvents (\<lambda>c e. [])
        (emitEvent CHANGE [JStr ''a'', JStr ''b''] (JNum 1) (JNum 2)
           (subscribe curlyBraces_wc [] [''{a,b}''] c new_manager))
      = Some (new_manager
             \<lparr>events := [],
              consumers := [(''a,b'', [c])],
              frames := 1,
              delivered := [(c, \<lparr>ev_event = CHANGE, ev_path = [JStr ''a'', JStr ''b''],
                                 ev_oldValue = JNum 1, ev_newValue = JNum 2\<rparr>)]\<rparr>)"
proof -
  have "map (\<lambda>x. if x = JUndefined \<or> x = JNull then [] else js_to_string x) (map JStr ss) = ss"
    by (induction ss) auto
  then have a: "join (map JStr ss) = intercalate '','' ss" by (simp add: join_def)
  show ?thesis
    apply (intro conjI a)
    apply simp
       apply (simp add: join_def)
      apply (simp add: subscribe_def subscribe_subject_def new_manager_def toString_def join_def matching_def curlyBraces_wc_def Template_keyFrom_def)
     apply (simp add: subscribe_def subscribe_subject_def new_manager_def toString_def join_def matching_def curlyBraces_wc_def Template_keyFrom_def)
    apply (simp add: processEvents.simps emitEvent_def emit_all_def subscribe_def subscribe_subject_def new_manager_def toString_def join_def matching_def curlyBraces_wc_def Template_keyFrom_def)
    done
qed

text \<open>
  C3, as stated: an event enqueued by a consumer during a flush is not delivered in
  that flush. Consumer 1, called for the event at \<open>["a"]\<close>, enqueues an event at
  \<open>["b"]\<close>, which was not in the queue; the same flush calls consumer 2 for it.
\<close>

theorem flush_reentrant_counterexample:
  "processEvents
     (\<lambda>c e. if c = (1::nat)
        then [\<lparr>ev_event = CHANGE, ev_path = [JStr ''b''], ev_oldValue = JNum 1, ev_newValue = JNum 2\<rparr>]
        else [])
     \<lparr>events = [\<lparr>ev_event = CHANGE, ev_path = [JStr ''a''], ev_oldValue = JNum 1, ev_newValue = JNum 2\<rparr>],
      consumers = [(''a'', [1]), (''b'', [2])], frames = 1, delivered = []\<rparr>
   = Some
     \<lparr>events = [], consumers = [(''a'', [1]), (''b'', [2])], frames = 2,
      delivered =
        [(1, \<lparr>ev_event = CHANGE, ev_path = [JStr ''a''], ev_oldValue = JNum 1, ev_newValue = JNum 2\<rparr>),
         (2, \<lparr>ev_event = CHANGE, ev_path = [JStr ''b''], ev_oldValue = JNum 1, ev_newValue = JNum 2\<rparr>)]\<rparr>
   \<and> \<lparr>ev_event = CHANGE, ev_path = [JStr ''b''], ev_oldValue = JNum 1, ev_newValue = JNum 2\<rparr>
       \<notin> set [\<lparr>ev_event = CHANGE, ev_path = [JStr ''a''], ev_oldValue = JNum 1, ev_newValue = JNum 2\<rparr>]"
  by (simp add: processEvents.simps matching_def join_def emit_all_def emitEvent_def)

text \<open>
  C3, amended: a flush that returns leaves the queue empty and has processed, in
  first-in first-out order, the events queued at its start followed by the events
  its consumers enqueued while it ran; and with consumers that enqueue nothing it
  returns, having called the consumers of each queued event in queue order.
\<close>

theorem flush_fifo_same_flush:
  "(processEvents call m = Some m' \<longrightarrow>
      events m' = []
      \<and> (\<exists>P. P = events m @ concat (map (emitted_by call (consumers m)) P)
            \<and> delivered m' = delivered m @ concat (map (calls_for (consumers m)) P)))
   \<and> ((\<forall>c e. call c e = []) \<longrightarrow>
        processEvents call m =
          Some (m\<lparr>events := [],
                 delivered := delivered m @ concat (map (calls_for (consumers m)) (events m))\<rparr>))"
  using processEvents_partial [of call m m'] processEvents_quiet [of call m] by blast

theorem flush_fifo_same_flush_witness:
  "processEvents
     (\<lambda>c e. if c = (1::nat)
        then [\<lparr>ev_event = CHANGE, ev_path = [JStr ''b''], ev_oldValue = JNum 1, ev_newValue = JNum 2\<rparr>]
        else [])
     \<lparr>events = [\<lparr>ev_event = CHANGE, ev_path = [JStr ''a''], ev_oldValue = JNum 1, ev_newValue = JNum 2\<rparr>],
      consumers = [(''a'', [1]), (''b'', [2])], frames = 1, delivered = []\<rparr>
   = Some
     \<lparr>events = [], consumers = [(''a'', [1]), (''b'', [2])], frames = 2,
      delivered =
        [(1, \<lparr>ev_event = CHANGE, ev_path = [JStr ''a''], ev_oldValue = JNum 1, ev_newValue = JNum 2\<rparr>),
         (2, \<lparr>ev_event = CHANGE, ev_path = [JStr ''b''], ev_oldValue = JNum 1, ev_newValue = JNum 2\<rparr>)]\<rparr>
   \<and> processEvents (\<lambda>(c::nat) e. [])
        \<lparr>events = [\<lparr>ev_event = CHANGE, ev_path = [JStr ''a''], ev_oldValue = JNum 1, ev_newValue = JNum 2\<rparr>,
                   \<lparr>ev_event = CHANGE, ev_path = [JStr ''b''], ev_oldValue = JNum 1, ev_newValue = JNum 2\<rparr>],
         consumers = [(''a'', [1]), (''b'', [2])], frames = 2, delivered = []\<rparr>
     = Some
        \<lparr>events = [], consumers = [(''a'', [1]), (''b'', [2])], frames = 2,
         delivered =
           [(1, \<lparr>ev_event = CHANGE, ev_path = [JStr ''a''], ev_oldValue = JNum 1, ev_newValue = JNum 2\<rparr>),
            (2, \<lparr>ev_event = CHANGE, ev_path = [JStr ''b''], ev_oldValue = JNum 1, ev_newValue = JNum 2\<rparr>)]\<rparr>"
proof -
  have run: "processEvents
     (\<lambda>c e. if c = (1::nat)
        then [\<lparr>ev_event = CHANGE, ev_path = [JStr ''b''], ev_oldValue = JNum 1, ev_newValue = JNum 2\<rparr>]
        else [])
     \<lparr>events = [\<lparr>ev_event = CHANGE, ev_path = [JStr ''a''], ev_oldValue = JNum 1, ev_newValue = JNum 2\<rparr>],
      consumers = [(''a'', [1]), (''b'', [2])], frames = 1, delivered = []\<rparr>
   = Some
     \<lparr>events = [], consumers = [(''a'', [1]), (''b'', [2])], frames = 2,
      delivered =
        [(1, \<lparr>ev_event = CHANGE, ev_path = [JStr ''a''], ev_oldValue = JNum 1, ev_newValue = JNum 2\<rparr>),
         (2, \<lparr>ev_event = CHANGE, ev_path = [JStr ''b''], ev_oldValue = JNum 1, ev_newValue = JNum 2\<rparr>)]\<rparr>"
    by (simp add: processEvents.simps matching_def join_def emit_all_def emitEvent_def)
  have quiet: "\<forall>c e. (\<lambda>(c::nat) (e::ev). ([]::ev list)) c e = []" by simp
  from flush_fifo_same_flush
         [of "\<lambda>(c::nat) e. []"
             "\<lparr>events = [\<lparr>ev_event = CHANGE, ev_path = [JStr ''a''], ev_oldValue = JNum 1, ev_newValue = JNum 2\<rparr>,
                   \<lparr>ev_event = CHANGE, ev_path = [JStr ''b''], ev_oldValue = JNum 1, ev_newValue = JNum 2\<rparr>],
         consumers = [(''a'', [1]), (''b'', [2])], frames = 2, delivered = []\<rparr>"]
       quiet
  have q: "processEvents (\<lambda>(c::nat) e. [])
        \<lparr>events = [\<lparr>ev_event = CHANGE, ev_path = [JStr ''a''], ev_oldValue = JNum 1, ev_newValue = JNum 2\<rparr>,
                   \<lparr>ev_event = CHANGE, ev_path = [JStr ''b''], ev_oldValue = JNum 1, ev_newValue = JNum 2\<rparr>],
         consumers = [(''a'', [1]), (''b'', [2])], frames = 2, delivered = []\<rparr>
     = Some
        \<lparr>events = [], consumers = [(''a'', [1]), (''b'', [2])], frames = 2,
         delivered =
           [(1, \<lparr>ev_event = CHANGE, ev_path = [JStr ''a''], ev_oldValue = JNum 1, ev_newValue = JNum 2\<rparr>),
            (2, \<lparr>ev_event = CHANGE, ev_path = [JStr ''b''], ev_oldValue = JNum 1, ev_newValue = JNum 2\<rparr>)]\<rparr>"
    by (simp add: calls_for_def matching_def join_def)
  from flush_fifo_same_flush
         [of "\<lambda>c e. if c = (1::nat)
        then [\<lparr>ev_event = CHANGE, ev_path = [JStr ''b''], ev_oldValue = JNum 1, ev_newValue = JNum 2\<rparr>]
        else []"] run q
  show ?thesis by simp
qed

section \<open>Properties of placeholder resolution\<close>











section \<open>Properties of attribute binding\<close>







end
